theory Spec2Isabelle
  imports Main "HOL-Library.AList"
begin

section \<open>Device discovery of the Stream Deck library: \<open>streamdeck/device_manager.py\<close>\<close>

text \<open>
  The module selects a HID transport back-end (\<open>DeviceManager._get_transport\<close>) and
  enumerates the attached devices through it (\<open>DeviceManager.enumerate\<close>). The
  back-ends and the device classes are imported from other modules; they are the
  parameters of this development.

  Conventions of the embedding:
  \<^item> A call into a collaborator (a probe, a transport constructor, a bus scan) may
    change the outside world and may raise. It is a function from the world \<open>'w\<close>
    before the call to the outcome and the world after it; the outcome is \<open>Inl e\<close>
    when the call raises \<open>e\<close> and \<open>Inr v\<close> when it returns \<open>v\<close>.
  \<^item> \<open>'e\<close> is the type of the exceptions collaborators raise. They are instances of
    Python's \<open>Exception\<close>, the class the handlers of the module name
    (\<open>except Exception\<close>).
  \<^item> \<open>'d\<close> is the type of the raw device descriptors a transport returns.
  \<^item> Python objects whose identity matters (the manager, the device wrappers) live
    in a heap; a reference is an index into it.
\<close>

subsection \<open>Collaborators\<close>

text \<open>A transport instance: its method \<open>enumerate(vid, pid)\<close>.\<close>

record ('w, 'e, 'd) transport =
  hid_enumerate :: "int \<Rightarrow> int \<Rightarrow> 'w \<Rightarrow> ('e + 'd list) \<times> 'w"

text \<open>
  A transport class: the static method \<open>probe()\<close>, whose return value is not used,
  and the constructor call \<open>transport_class()\<close>.
\<close>

record ('w, 'e, 'd) transport_class =
  probe :: "'w \<Rightarrow> ('e + unit) \<times> 'w"
  construct :: "'w \<Rightarrow> ('e + ('w, 'e, 'd) transport) \<times> 'w"

text \<open>The four device classes imported by the module.\<close>

datatype device_class =
  StreamDeckOriginal | StreamDeckOriginalV2 | StreamDeckMini | StreamDeckXL

subsection \<open>Exceptions\<close>

text \<open>
  The arguments a \<open>ProbeError\<close> is raised with: a message, the exception that caused
  it, or the dictionary \<open>probe_errors\<close> (insertion ordered, keyed by back-end name).
\<close>

datatype 'e pyval = Str string | Exc 'e | Dict "(string \<times> 'e) list"

text \<open>
  What a call of the module can raise: its own \<open>ProbeError\<close> with its arguments, an
  exception of a collaborator that is not handled (\<open>Raised\<close>), and the
  \<open>AttributeError\<close> of reading \<open>self.transport\<close> from something that is not a
  manager.
\<close>

datatype 'e exn = ProbeError "'e pyval list" | Raised 'e | AttributeError

subsection \<open>Back-end selection: \<open>_get_transport\<close>\<close>

text \<open>The truth value of the argument \<open>transport\<close>, a \<open>str\<close> or \<open>None\<close>.\<close>

fun truthy :: "string option \<Rightarrow> bool" where
  "truthy None = False"
| "truthy (Some name) = (name \<noteq> [])"

text \<open>
  The body of both \<open>try\<close> blocks: \<open>transport_class.probe()\<close> followed by
  \<open>return transport_class()\<close>. The constructor runs only after the probe returned.
\<close>

definition probe_and_construct ::
  "('w, 'e, 'd) transport_class \<Rightarrow> 'w \<Rightarrow> ('e + ('w, 'e, 'd) transport) \<times> 'w" where
  "probe_and_construct transport_class w =
     (case probe transport_class w of
        (Inl transport_error, w1) \<Rightarrow> (Inl transport_error, w1)
      | (Inr _, w1) \<Rightarrow> construct transport_class w1)"

text \<open>
  The \<open>for\<close> loop of the auto-probe branch over \<open>transports.items()\<close>, with the
  \<open>raise\<close> that follows it. \<open>probe_errors[transport_name] = transport_error\<close> is the
  update of an insertion-ordered dictionary.
\<close>

fun autoprobe ::
  "(string \<times> ('w, 'e, 'd) transport_class) list \<Rightarrow> (string \<times> 'e) list \<Rightarrow> 'w \<Rightarrow>
   ('e exn + ('w, 'e, 'd) transport) \<times> 'w" where
  "autoprobe [] probe_errors w =
     (Inl (ProbeError [Str ''Probe failed to find any functional HID backend.'',
                       Dict probe_errors]), w)"
| "autoprobe ((transport_name, transport_class) # rest) probe_errors w =
     (if transport_name = ''dummy'' then autoprobe rest probe_errors w
      else
        (case probe_and_construct transport_class w of
           (Inr t, w1) \<Rightarrow> (Inr t, w1)
         | (Inl transport_error, w1) \<Rightarrow>
             autoprobe rest (AList.update transport_name transport_error probe_errors) w1))"

text \<open>
  The dictionary \<open>transports\<close>, in the order of its literal. \<open>Dummy\<close> and
  \<open>LibUSBHIDAPI\<close> are the two imported transport classes.
\<close>

definition transports ::
  "('w, 'e, 'd) transport_class \<Rightarrow> ('w, 'e, 'd) transport_class \<Rightarrow>
   (string \<times> ('w, 'e, 'd) transport_class) list" where
  "transports Dummy LibUSBHIDAPI = [(''dummy'', Dummy), (''libusb'', LibUSBHIDAPI)]"

text \<open>
  \<open>_get_transport(transport)\<close>. (An Isabelle name cannot start with an underscore.)
  \<open>transports.get(transport)\<close> is \<open>map_of\<close>; \<open>"...{}...".format(transport)\<close> puts the
  string between the two parts of the message.
\<close>

definition get_transport ::
  "('w, 'e, 'd) transport_class \<Rightarrow> ('w, 'e, 'd) transport_class \<Rightarrow> string option \<Rightarrow> 'w \<Rightarrow>
   ('e exn + ('w, 'e, 'd) transport) \<times> 'w" where
  "get_transport Dummy LibUSBHIDAPI transport w =
     (if truthy transport then
        (case map_of (transports Dummy LibUSBHIDAPI) (the transport) of
           None \<Rightarrow>
             (Inl (ProbeError
                [Str (''Unknown HID transport backend \"'' @ the transport @ ''\".'')]), w)
         | Some transport_class \<Rightarrow>
             (case probe_and_construct transport_class w of
                (Inr t, w1) \<Rightarrow> (Inr t, w1)
              | (Inl transport_error, w1) \<Rightarrow>
                  (Inl (ProbeError
                     [Str (''Probe failed on HID backend \"'' @ the transport @ ''\".''),
                      Exc transport_error]), w1)))
      else autoprobe (transports Dummy LibUSBHIDAPI) [] w)"

text \<open>
  The three shapes of \<open>ProbeError\<close> the function raises, under the names the
  specification gives them: the name was not a key of \<open>transports\<close>; the requested
  back-end raised \<open>cause\<close>; auto-probing found no back-end and collected \<open>errors\<close>.
\<close>

definition UnknownBackend :: "string \<Rightarrow> 'e exn" where
  "UnknownBackend name =
     ProbeError [Str (''Unknown HID transport backend \"'' @ name @ ''\".'')]"

definition ProbeFailed :: "string \<Rightarrow> 'e \<Rightarrow> 'e exn" where
  "ProbeFailed name cause =
     ProbeError [Str (''Probe failed on HID backend \"'' @ name @ ''\".''), Exc cause]"

definition NoFunctionalBackend :: "(string \<times> 'e) list \<Rightarrow> 'e exn" where
  "NoFunctionalBackend errors =
     ProbeError [Str ''Probe failed to find any functional HID backend.'', Dict errors]"

text \<open>
  \<open>all_fail items w causes w'\<close>: tried one after the other from the world \<open>w\<close>, every
  entry of \<open>items\<close> other than the stub raises in its probe or in its constructor;
  \<open>causes\<close> lists each such entry's name with what it raised, and \<open>w'\<close> is the world
  after the last attempt. The stub is not tried.
\<close>

inductive all_fail ::
  "(string \<times> ('w, 'e, 'd) transport_class) list \<Rightarrow> 'w \<Rightarrow> (string \<times> 'e) list \<Rightarrow> 'w \<Rightarrow> bool" where
  none: "all_fail [] w [] w"
| stub: "all_fail rest w causes w' \<Longrightarrow> all_fail ((''dummy'', c) # rest) w causes w'"
| failed: "name \<noteq> ''dummy'' \<Longrightarrow> probe_and_construct c w = (Inl cause, w1) \<Longrightarrow>
     all_fail rest w1 causes w' \<Longrightarrow>
     all_fail ((name, c) # rest) w ((name, cause) # causes) w'"

code_pred all_fail .

subsection \<open>Objects and the heap\<close>

type_synonym ref = nat

text \<open>
  A \<open>DeviceManager\<close> instance has one attribute, \<open>transport\<close>.

  Modelled from the spec: the constructors of the device classes (the modules
  \<open>streamdeck/devices/*\<close> are not among the sources). A device model constructor takes
  the raw descriptor as its sole argument and wraps it: the new instance is of the
  signature's class and holds the descriptor; the constructor does not query the bus
  and does not raise.
\<close>

datatype ('w, 'e, 'd) object =
  DeviceManager "('w, 'e, 'd) transport"
| StreamDeck device_class 'd

record ('w, 'e, 'd) state =
  heap :: "('w, 'e, 'd) object list"
  world :: 'w

definition deref :: "('w, 'e, 'd) state \<Rightarrow> ref \<Rightarrow> ('w, 'e, 'd) object option" where
  "deref s r = (if r < length (heap s) then Some (heap s ! r) else None)"

text \<open>Creating an object: it gets the next free reference.\<close>

definition new_object ::
  "('w, 'e, 'd) object \<Rightarrow> ('w, 'e, 'd) state \<Rightarrow> ref \<times> ('w, 'e, 'd) state" where
  "new_object obj s = (length (heap s), s\<lparr>heap := heap s @ [obj]\<rparr>)"

subsection \<open>The manager: \<open>__init__\<close> and \<open>enumerate\<close>\<close>

text \<open>
  \<open>DeviceManager(transport)\<close>: \<open>__init__\<close> stores the result of \<open>_get_transport\<close> in
  the attribute \<open>transport\<close> of the new instance. When \<open>_get_transport\<close> raises, the
  exception leaves the constructor call and no instance is returned.
\<close>

definition DeviceManager_init ::
  "('w, 'e, 'd) transport_class \<Rightarrow> ('w, 'e, 'd) transport_class \<Rightarrow> string option \<Rightarrow>
   ('w, 'e, 'd) state \<Rightarrow> ('e exn + ref) \<times> ('w, 'e, 'd) state" where
  "DeviceManager_init Dummy LibUSBHIDAPI transport s =
     (case get_transport Dummy LibUSBHIDAPI transport (world s) of
        (Inl err, w1) \<Rightarrow> (Inl err, s\<lparr>world := w1\<rparr>)
      | (Inr t, w1) \<Rightarrow>
          (case new_object (DeviceManager t) (s\<lparr>world := w1\<rparr>) of
             (self, s1) \<Rightarrow> (Inr self, s1)))"

definition USB_VID_ELGATO :: int where "USB_VID_ELGATO = 0x0fd9"
definition USB_PID_STREAMDECK_ORIGINAL :: int where "USB_PID_STREAMDECK_ORIGINAL = 0x0060"
definition USB_PID_STREAMDECK_ORIGINAL_V2 :: int where "USB_PID_STREAMDECK_ORIGINAL_V2 = 0x006d"
definition USB_PID_STREAMDECK_MINI :: int where "USB_PID_STREAMDECK_MINI = 0x0063"
definition USB_PID_STREAMDECK_XL :: int where "USB_PID_STREAMDECK_XL = 0x006c"

definition products :: "(int \<times> int \<times> device_class) list" where
  "products =
     [(USB_VID_ELGATO, USB_PID_STREAMDECK_ORIGINAL, StreamDeckOriginal),
      (USB_VID_ELGATO, USB_PID_STREAMDECK_ORIGINAL_V2, StreamDeckOriginalV2),
      (USB_VID_ELGATO, USB_PID_STREAMDECK_MINI, StreamDeckMini),
      (USB_VID_ELGATO, USB_PID_STREAMDECK_XL, StreamDeckXL)]"

text \<open>The comprehension \<open>[class_type(d) for d in found_devices]\<close>.\<close>

fun construct_all ::
  "device_class \<Rightarrow> 'd list \<Rightarrow> ('w, 'e, 'd) state \<Rightarrow> ref list \<times> ('w, 'e, 'd) state" where
  "construct_all class_type [] s = ([], s)"
| "construct_all class_type (d # found_devices) s =
     (case new_object (StreamDeck class_type d) s of
        (r, s1) \<Rightarrow>
          (case construct_all class_type found_devices s1 of
             (rs, s2) \<Rightarrow> (r # rs, s2)))"

text \<open>
  The loop \<open>for vid, pid, class_type in products\<close> with the \<open>return streamdecks\<close>
  after it. An exception of \<open>self.transport.enumerate\<close> is not handled: it leaves the
  loop and the method.
\<close>

fun enumerate_loop ::
  "('w, 'e, 'd) transport \<Rightarrow> (int \<times> int \<times> device_class) list \<Rightarrow> ref list \<Rightarrow>
   ('w, 'e, 'd) state \<Rightarrow> ('e exn + ref list) \<times> ('w, 'e, 'd) state" where
  "enumerate_loop t [] streamdecks s = (Inr streamdecks, s)"
| "enumerate_loop t ((vid, pid, class_type) # rest) streamdecks s =
     (case hid_enumerate t vid pid (world s) of
        (Inl fault, w1) \<Rightarrow> (Inl (Raised fault), s\<lparr>world := w1\<rparr>)
      | (Inr found_devices, w1) \<Rightarrow>
          (case construct_all class_type found_devices (s\<lparr>world := w1\<rparr>) of
             (new, s1) \<Rightarrow> enumerate_loop t rest (streamdecks @ new) s1))"

text \<open>
  \<open>DeviceManager.enumerate(self)\<close>; the name \<open>enumerate\<close> alone is a list function
  of HOL.
\<close>

definition DeviceManager_enumerate ::
  "ref \<Rightarrow> ('w, 'e, 'd) state \<Rightarrow> ('e exn + ref list) \<times> ('w, 'e, 'd) state" where
  "DeviceManager_enumerate self s =
     (case deref s self of
        Some (DeviceManager t) \<Rightarrow> enumerate_loop t products [] s
      | _ \<Rightarrow> (Inl AttributeError, s))"

subsection \<open>Example collaborators\<close>

text \<open>
  Collaborators for concrete runs. Their world is the list of the calls made so far,
  their exceptions are strings, and so are their descriptors.
\<close>

datatype call = Probe string | Construct string | Enumerate int int

text \<open>A transport that answers from a table by product id, and cannot fail.\<close>

definition bus_transport :: "(int \<Rightarrow> string list) \<Rightarrow> (call list, string, string) transport" where
  "bus_transport bus =
     \<lparr>hid_enumerate = (\<lambda>vid pid w. (Inr (bus pid), w @ [Enumerate vid pid]))\<rparr>"

text \<open>A transport whose scan raises for one product id.\<close>

definition faulty_transport ::
  "(int \<Rightarrow> string list) \<Rightarrow> int \<Rightarrow> (call list, string, string) transport" where
  "faulty_transport bus bad =
     \<lparr>hid_enumerate = (\<lambda>vid pid w.
        (if pid = bad then Inl ''bus disconnected'' else Inr (bus pid),
         w @ [Enumerate vid pid]))\<rparr>"

text \<open>
  A transport class whose probe raises \<open>probe_fault\<close> when there is one, and whose
  constructor has the outcome \<open>made\<close>.
\<close>

definition backend ::
  "string \<Rightarrow> string option \<Rightarrow> (string + (call list, string, string) transport) \<Rightarrow>
   (call list, string, string) transport_class" where
  "backend name probe_fault made =
     \<lparr>probe = (\<lambda>w. (case probe_fault of None \<Rightarrow> Inr () | Some e \<Rightarrow> Inl e, w @ [Probe name])),
      construct = (\<lambda>w. (made, w @ [Construct name]))\<rparr>"

definition no_devices :: "int \<Rightarrow> string list" where
  "no_devices pid = []"

definition one_and_two :: "int \<Rightarrow> string list" where
  "one_and_two pid =
     (if pid = USB_PID_STREAMDECK_ORIGINAL then [''deck'']
      else if pid = USB_PID_STREAMDECK_ORIGINAL_V2 then [''deck A'', ''deck B'']
      else [])"

definition stub_backend :: "(call list, string, string) transport_class" where
  "stub_backend = backend ''dummy'' None (Inr (bus_transport no_devices))"

definition working_libusb :: "(call list, string, string) transport_class" where
  "working_libusb = backend ''libusb'' None (Inr (bus_transport one_and_two))"

definition broken_libusb :: "(call list, string, string) transport_class" where
  "broken_libusb = backend ''libusb'' (Some ''no hidapi'') (Inr (bus_transport no_devices))"

definition working_hidraw :: "(call list, string, string) transport_class" where
  "working_hidraw = backend ''hidraw'' None (Inr (bus_transport no_devices))"

definition broken_hidraw :: "(call list, string, string) transport_class" where
  "broken_hidraw = backend ''hidraw'' None (Inl ''permission denied'')"

text \<open>A state with one object, a manager that holds the transport \<open>t\<close>, and no calls made.\<close>

definition managed :: "(call list, string, string) transport \<Rightarrow> (call list, string, string) state" where
  "managed t = \<lparr>heap = [DeviceManager t], world = []\<rparr>"

section \<open>Properties of the back-end selection\<close>

subsection \<open>Auxiliary facts\<close>

lemma update_fresh: "k \<notin> fst ` set al \<Longrightarrow> AList.update k v al = al @ [(k, v)]"
  by (induction al) auto

lemma registered_nonempty: "(name, c) \<in> set (transports D L) \<Longrightarrow> name \<noteq> []"
  by (auto simp: transports_def)

lemma registered_lookup:
  "(name, c) \<in> set (transports D L) \<Longrightarrow> map_of (transports D L) name = Some c"
  by (auto simp: transports_def)

lemma autoprobe_not_UnknownBackend:
  "fst (autoprobe items errs w) \<noteq> Inl (UnknownBackend name)"
  by (induction items errs w rule: autoprobe.induct)
     (auto simp: UnknownBackend_def split: if_splits prod.splits sum.splits)

text \<open>The message of a \<open>ProbeFailed\<close> determines the back-end it names.\<close>

lemma ProbeFailed_inject:
  "(ProbeFailed name cause = ProbeFailed name' cause') = (name = name' \<and> cause = cause')"
  by (auto simp: ProbeFailed_def)

subsection \<open>Explicit selection\<close>

text \<open>
  Claim C1. Let \<open>name\<close> be a key of \<open>transports\<close> and \<open>transport_class\<close> its value. When
  the back-end is requested by that name and its probe raises \<open>cause\<close>, or its probe
  returns and its constructor raises \<open>cause\<close>, \<open>_get_transport\<close> raises the
  \<open>ProbeError\<close> "Probe failed on HID backend" that names \<open>name\<close> and carries
  \<open>cause\<close>. The world it leaves is the one the failing call left: nothing else was
  called afterwards, and the outcome does not depend on the other back-end.
\<close>

theorem explicit_failure_raises_ProbeFailed:
  assumes "(name, transport_class) \<in> set (transports Dummy LibUSBHIDAPI)"
    and "probe transport_class w = (Inl cause, w') \<or>
         (\<exists>w1. probe transport_class w = (Inr (), w1) \<and>
               construct transport_class w1 = (Inl cause, w'))"
  shows "get_transport Dummy LibUSBHIDAPI (Some name) w = (Inl (ProbeFailed name cause), w')"
proof -
  from assms(2) have "probe_and_construct transport_class w = (Inl cause, w')"
    by (auto simp: probe_and_construct_def)
  with assms(1) show ?thesis
    by (simp add: get_transport_def registered_nonempty registered_lookup ProbeFailed_def)
qed

text \<open>
  \<open>libusb\<close> is requested and its probe raises: the call log holds the probe of
  \<open>libusb\<close> and nothing of \<open>dummy\<close>.
\<close>

theorem explicit_failure_raises_ProbeFailed_witness:
  "(''libusb'', broken_libusb) \<in> set (transports stub_backend broken_libusb) \<and>
   probe broken_libusb [] = (Inl ''no hidapi'', [Probe ''libusb'']) \<and>
   get_transport stub_backend broken_libusb (Some ''libusb'') []
     = (Inl (ProbeFailed ''libusb'' ''no hidapi''), [Probe ''libusb''])"
  using explicit_failure_raises_ProbeFailed
    [of "''libusb''" broken_libusb stub_backend broken_libusb
        "[]" "''no hidapi''" "[Probe ''libusb'']"]
  by (simp add: transports_def broken_libusb_def backend_def)

text \<open>
  Claim C2, amended. For every non-empty string that is not a key of \<open>transports\<close>,
  \<open>_get_transport\<close> raises the \<open>ProbeError\<close> "Unknown HID transport backend" with
  that string, whatever the two back-ends would do, and calls neither of them: the
  world is unchanged.
\<close>

theorem unknown_name_raises_UnknownBackend:
  assumes "name \<noteq> []" and "name \<notin> fst ` set (transports Dummy LibUSBHIDAPI)"
  shows "get_transport Dummy LibUSBHIDAPI (Some name) w = (Inl (UnknownBackend name), w)"
  using assms by (auto simp: get_transport_def transports_def UnknownBackend_def)

theorem unknown_name_raises_UnknownBackend_witness:
  "''hidraw'' \<noteq> [] \<and>
   ''hidraw'' \<notin> fst ` set (transports stub_backend working_libusb) \<and>
   get_transport stub_backend working_libusb (Some ''hidraw'') []
     = (Inl (UnknownBackend ''hidraw''), [])"
  using unknown_name_raises_UnknownBackend [of "''hidraw''" stub_backend working_libusb "[]"]
  by (simp add: transports_def)

text \<open>
  The claim as stated, for every string that is not a key, fails at the empty string:
  it is not a key, and requesting it returns the transport of \<open>libusb\<close> after probing
  it.
\<close>

theorem unregistered_empty_name_counterexample:
  "[] \<notin> fst ` set (transports stub_backend working_libusb) \<and>
   get_transport stub_backend working_libusb (Some []) []
     = (Inr (bus_transport one_and_two), [Probe ''libusb'', Construct ''libusb'']) \<and>
   fst (get_transport stub_backend working_libusb (Some []) []) \<noteq> Inl (UnknownBackend [])"
  by (simp add: transports_def get_transport_def probe_and_construct_def
      working_libusb_def backend_def)

text \<open>
  Claim C10. The explicit branch is entered when the name is true, so the empty string
  is handled like \<open>None\<close> and the call auto-probes: \<open>Dummy\<close> is not called, the probe
  of \<open>LibUSBHIDAPI\<close> is, and its constructor after it when the probe returned. When
  both return, the result is the instance constructed; when either raises \<open>cause\<close>, the
  result is the \<open>ProbeError\<close> "Probe failed to find any functional HID backend" with
  the one entry \<open>libusb\<close>, \<open>cause\<close>. In no case is it the \<open>ProbeError\<close> "Unknown HID
  transport backend", for any name.
\<close>

theorem empty_name_autoprobes:
  "get_transport Dummy LibUSBHIDAPI (Some []) w =
     (case probe LibUSBHIDAPI w of
        (Inl cause, w1) \<Rightarrow> (Inl (NoFunctionalBackend [(''libusb'', cause)]), w1)
      | (Inr _, w1) \<Rightarrow>
          (case construct LibUSBHIDAPI w1 of
             (Inl cause, w2) \<Rightarrow> (Inl (NoFunctionalBackend [(''libusb'', cause)]), w2)
           | (Inr t, w2) \<Rightarrow> (Inr t, w2))) \<and>
   get_transport Dummy LibUSBHIDAPI (Some []) w = get_transport Dummy LibUSBHIDAPI None w \<and>
   get_transport Dummy LibUSBHIDAPI (Some []) w = autoprobe (transports Dummy LibUSBHIDAPI) [] w \<and>
   (\<forall>name. fst (get_transport Dummy LibUSBHIDAPI (Some []) w) \<noteq> Inl (UnknownBackend name))"
proof -
  have "get_transport Dummy LibUSBHIDAPI (Some []) w =
     (case probe LibUSBHIDAPI w of
        (Inl cause, w1) \<Rightarrow> (Inl (NoFunctionalBackend [(''libusb'', cause)]), w1)
      | (Inr _, w1) \<Rightarrow>
          (case construct LibUSBHIDAPI w1 of
             (Inl cause, w2) \<Rightarrow> (Inl (NoFunctionalBackend [(''libusb'', cause)]), w2)
           | (Inr t, w2) \<Rightarrow> (Inr t, w2)))"
    by (simp add: get_transport_def transports_def probe_and_construct_def
        NoFunctionalBackend_def split: prod.splits sum.splits)
  moreover have "get_transport Dummy LibUSBHIDAPI (Some []) w = get_transport Dummy LibUSBHIDAPI None w"
    by (simp add: get_transport_def)
  moreover have "get_transport Dummy LibUSBHIDAPI (Some []) w = autoprobe (transports Dummy LibUSBHIDAPI) [] w"
    by (simp add: get_transport_def)
  moreover have "\<forall>name. fst (get_transport Dummy LibUSBHIDAPI (Some []) w) \<noteq> Inl (UnknownBackend name)"
    by (simp add: get_transport_def autoprobe_not_UnknownBackend)
  ultimately show ?thesis by simp
qed

text \<open>
  The empty name with a working \<open>libusb\<close> gives its instance, and with a failing one
  the collected error; the call log holds calls of \<open>libusb\<close> only.
\<close>

theorem empty_name_autoprobes_witness:
  "get_transport stub_backend working_libusb (Some []) []
     = (Inr (bus_transport one_and_two), [Probe ''libusb'', Construct ''libusb'']) \<and>
   get_transport stub_backend broken_libusb (Some []) []
     = (Inl (NoFunctionalBackend [(''libusb'', ''no hidapi'')]), [Probe ''libusb''])"
  using empty_name_autoprobes [of stub_backend working_libusb "[]"]
    empty_name_autoprobes [of stub_backend broken_libusb "[]"]
  by (simp add: working_libusb_def broken_libusb_def backend_def)

subsection \<open>Auto-probing\<close>

lemma autoprobe_all_fail:
  "all_fail items w causes w' \<Longrightarrow> distinct (map fst items) \<Longrightarrow>
   fst ` set errs \<inter> fst ` set items = {} \<Longrightarrow>
   autoprobe items errs w = (Inl (NoFunctionalBackend (errs @ causes)), w')"
proof (induction arbitrary: errs rule: all_fail.induct)
  case (none w)
  then show ?case by (simp add: NoFunctionalBackend_def)
next
  case (stub rest w causes w' c)
  then show ?case by auto
next
  case (failed name c w cause w1 rest causes w')
  have "name \<notin> fst ` set errs" using failed.prems by auto
  then have u: "AList.update name cause errs = errs @ [(name, cause)]" by (rule update_fresh)
  have "fst ` set (errs @ [(name, cause)]) \<inter> fst ` set rest = {}"
    using failed.prems by auto
  with failed have "autoprobe rest (errs @ [(name, cause)]) w1 =
     (Inl (NoFunctionalBackend ((errs @ [(name, cause)]) @ causes)), w')" by simp
  with failed.hyps u show ?case by simp
qed

lemma all_fail_keys:
  "all_fail items w causes w' \<Longrightarrow> map fst causes = filter (\<lambda>n. n \<noteq> ''dummy'') (map fst items)"
  by (induction rule: all_fail.induct) auto

lemma autoprobe_skips_stub:
  "autoprobe items errs w = autoprobe (filter (\<lambda>(n, c). n \<noteq> ''dummy'') items) errs w"
  by (induction items errs w rule: autoprobe.induct) (auto split: prod.splits sum.splits)

lemma autoprobe_after_failures:
  "all_fail pre w causes w1 \<Longrightarrow> name \<noteq> ''dummy'' \<Longrightarrow>
   probe_and_construct c w1 = (Inr t, w2) \<Longrightarrow>
   autoprobe (pre @ (name, c) # post) errs w = (Inr t, w2)"
  by (induction arbitrary: errs rule: all_fail.induct) auto

lemma broken_libusb_fails:
  "probe_and_construct broken_libusb [] = (Inl ''no hidapi'', [Probe ''libusb''])"
  by (simp add: probe_and_construct_def broken_libusb_def backend_def)

lemma broken_hidraw_fails:
  "probe_and_construct broken_hidraw [Probe ''libusb'']
     = (Inl ''permission denied'', [Probe ''libusb'', Probe ''hidraw'', Construct ''hidraw''])"
  by (simp add: probe_and_construct_def broken_hidraw_def backend_def)

lemma stub_then_broken_libusb:
  "all_fail [(''dummy'', stub_backend), (''libusb'', broken_libusb)] []
     [(''libusb'', ''no hidapi'')] [Probe ''libusb'']"
proof -
  have "''libusb'' \<noteq> ''dummy''" by simp
  then have "all_fail [(''libusb'', broken_libusb)] [] [(''libusb'', ''no hidapi'')] [Probe ''libusb'']"
    using broken_libusb_fails all_fail.none by (rule all_fail.failed)
  then show ?thesis by (rule all_fail.stub)
qed

lemma broken_libusb_then_broken_hidraw:
  "all_fail [(''dummy'', stub_backend), (''libusb'', broken_libusb), (''hidraw'', broken_hidraw)] []
     [(''libusb'', ''no hidapi''), (''hidraw'', ''permission denied'')]
     [Probe ''libusb'', Probe ''hidraw'', Construct ''hidraw'']"
proof -
  have "''hidraw'' \<noteq> ''dummy''" by simp
  then have h: "all_fail [(''hidraw'', broken_hidraw)] [Probe ''libusb'']
     [(''hidraw'', ''permission denied'')]
     [Probe ''libusb'', Probe ''hidraw'', Construct ''hidraw'']"
    using broken_hidraw_fails all_fail.none by (rule all_fail.failed)
  have "''libusb'' \<noteq> ''dummy''" by simp
  then have "all_fail [(''libusb'', broken_libusb), (''hidraw'', broken_hidraw)] []
     [(''libusb'', ''no hidapi''), (''hidraw'', ''permission denied'')]
     [Probe ''libusb'', Probe ''hidraw'', Construct ''hidraw'']"
    using broken_libusb_fails h by (rule all_fail.failed)
  then show ?thesis by (rule all_fail.stub)
qed

text \<open>
  Claim C3. Auto-probing goes through the entries of \<open>transports\<close> in their order
  and does not try the stub. When every entry before \<open>(name, c)\<close> other than the stub
  fails (\<open>all_fail pre\<close>) and the probe and the constructor of \<open>c\<close> both return,
  the result is the instance \<open>c\<close> constructed, whatever follows \<open>c\<close> in the
  dictionary: the failures before it did not end the scan, and nothing after it is
  tried (the world is the one its constructor left). \<open>_get_transport(None)\<close> is this
  scan over \<open>transports\<close>, and a scan equals the scan without the stub entries.
\<close>

theorem autoprobe_returns_first_success:
  assumes "all_fail pre w causes w1"
    and "name \<noteq> ''dummy''"
    and "probe c w1 = (Inr (), w2)"
    and "construct c w2 = (Inr t, w3)"
  shows "autoprobe (pre @ (name, c) # post) [] w = (Inr t, w3) \<and>
         get_transport Dummy LibUSBHIDAPI None w0 = autoprobe (transports Dummy LibUSBHIDAPI) [] w0 \<and>
         autoprobe items errs w0 = autoprobe (filter (\<lambda>(n, c). n \<noteq> ''dummy'') items) errs w0"
proof -
  from assms(3,4) have "probe_and_construct c w1 = (Inr t, w3)"
    by (simp add: probe_and_construct_def)
  with assms(1,2) have "autoprobe (pre @ (name, c) # post) [] w = (Inr t, w3)"
    by (rule autoprobe_after_failures)
  moreover have "get_transport Dummy LibUSBHIDAPI None w0 = autoprobe (transports Dummy LibUSBHIDAPI) [] w0"
    by (simp add: get_transport_def)
  moreover have "autoprobe items errs w0 = autoprobe (filter (\<lambda>(n, c). n \<noteq> ''dummy'') items) errs w0"
    by (rule autoprobe_skips_stub)
  ultimately show ?thesis by simp
qed

text \<open>
  With the entries \<open>dummy\<close>, a failing \<open>libusb\<close>, and two working back-ends, the first
  working one is returned and the second is not probed; with the dictionary of the
  module and a working \<open>libusb\<close>, \<open>_get_transport(None)\<close> returns its instance.
\<close>

theorem autoprobe_returns_first_success_witness:
  "all_fail [(''dummy'', stub_backend), (''libusb'', broken_libusb)] []
     [(''libusb'', ''no hidapi'')] [Probe ''libusb''] \<and>
   autoprobe [(''dummy'', stub_backend), (''libusb'', broken_libusb),
              (''hidraw'', working_hidraw), (''libusb2'', working_libusb)] [] []
     = (Inr (bus_transport no_devices), [Probe ''libusb'', Probe ''hidraw'', Construct ''hidraw'']) \<and>
   all_fail [(''dummy'', stub_backend)] [] [] [] \<and>
   get_transport stub_backend working_libusb None []
     = (Inr (bus_transport one_and_two), [Probe ''libusb'', Construct ''libusb''])"
proof -
  have s: "all_fail [(''dummy'', stub_backend)] ([] :: call list) ([] :: (string \<times> string) list) []"
    by (intro all_fail.intros)
  have "autoprobe ([(''dummy'', stub_backend), (''libusb'', broken_libusb)] @
           (''hidraw'', working_hidraw) # [(''libusb2'', working_libusb)]) [] []
     = (Inr (bus_transport no_devices), [Probe ''libusb'', Probe ''hidraw'', Construct ''hidraw''])"
  proof -
    have p: "probe working_hidraw [Probe ''libusb''] = (Inr (), [Probe ''libusb'', Probe ''hidraw''])"
      by (simp add: working_hidraw_def backend_def)
    have c: "construct working_hidraw [Probe ''libusb'', Probe ''hidraw'']
       = (Inr (bus_transport no_devices), [Probe ''libusb'', Probe ''hidraw'', Construct ''hidraw''])"
      by (simp add: working_hidraw_def backend_def)
    have n: "''hidraw'' \<noteq> ''dummy''" by simp
    show ?thesis
      using autoprobe_returns_first_success [OF stub_then_broken_libusb n p c,
          THEN conjunct1, of "[(''libusb2'', working_libusb)]"]
      by simp
  qed
  moreover have "get_transport stub_backend working_libusb None []
     = (Inr (bus_transport one_and_two), [Probe ''libusb'', Construct ''libusb''])"
  proof -
    have p: "probe working_libusb [] = (Inr (), [Probe ''libusb''])"
      by (simp add: working_libusb_def backend_def)
    have c: "construct working_libusb [Probe ''libusb'']
       = (Inr (bus_transport one_and_two), [Probe ''libusb'', Construct ''libusb''])"
      by (simp add: working_libusb_def backend_def)
    have n: "''libusb'' \<noteq> ''dummy''" by simp
    show ?thesis
      using autoprobe_returns_first_success [OF s n p c,
          of "[]" stub_backend working_libusb "[]" "[]" "[]"]
      by (simp add: transports_def)
  qed
  ultimately show ?thesis using stub_then_broken_libusb s by simp
qed

text \<open>
  Claim C4. When every entry of the dictionary other than the stub fails in its probe
  or its constructor, auto-probing raises the \<open>ProbeError\<close> "Probe failed to find
  any functional HID backend" whose dictionary is \<open>causes\<close>: its keys are the names of
  the entries other than the stub, once each and in their order, and each holds what
  that back-end raised (by the definition of \<open>all_fail\<close>). \<open>_get_transport(None)\<close> is
  this scan over \<open>transports\<close>.
\<close>

theorem autoprobe_exhausted_raises_NoFunctionalBackend:
  assumes "distinct (map fst items)"
    and "all_fail items w causes w'"
  shows "autoprobe items [] w = (Inl (NoFunctionalBackend causes), w') \<and>
         map fst causes = filter (\<lambda>n. n \<noteq> ''dummy'') (map fst items) \<and>
         get_transport Dummy LibUSBHIDAPI None w0 = autoprobe (transports Dummy LibUSBHIDAPI) [] w0"
proof -
  have "autoprobe items [] w = (Inl (NoFunctionalBackend ([] @ causes)), w')"
    using assms(2,1) by (rule autoprobe_all_fail) simp
  moreover have "map fst causes = filter (\<lambda>n. n \<noteq> ''dummy'') (map fst items)"
    using assms(2) by (rule all_fail_keys)
  moreover have "get_transport Dummy LibUSBHIDAPI None w0 = autoprobe (transports Dummy LibUSBHIDAPI) [] w0"
    by (simp add: get_transport_def)
  ultimately show ?thesis by simp
qed

text \<open>
  The dictionary of the module with a failing \<open>libusb\<close>: one entry, for \<open>libusb\<close>.
  Three entries of which two are tried and fail: two entries, none for the stub.
\<close>

theorem autoprobe_exhausted_raises_NoFunctionalBackend_witness:
  "distinct (map fst (transports stub_backend broken_libusb)) \<and>
   all_fail (transports stub_backend broken_libusb) []
     [(''libusb'', ''no hidapi'')] [Probe ''libusb''] \<and>
   get_transport stub_backend broken_libusb None []
     = (Inl (NoFunctionalBackend [(''libusb'', ''no hidapi'')]), [Probe ''libusb'']) \<and>
   autoprobe [(''dummy'', stub_backend), (''libusb'', broken_libusb), (''hidraw'', broken_hidraw)] [] []
     = (Inl (NoFunctionalBackend [(''libusb'', ''no hidapi''), (''hidraw'', ''permission denied'')]),
        [Probe ''libusb'', Probe ''hidraw'', Construct ''hidraw''])"
proof -
  have d: "distinct (map fst (transports stub_backend broken_libusb))"
    by (simp add: transports_def)
  have f: "all_fail (transports stub_backend broken_libusb) []
     [(''libusb'', ''no hidapi'')] [Probe ''libusb'']"
    using stub_then_broken_libusb by (simp add: transports_def)
  have "get_transport stub_backend broken_libusb None []
     = (Inl (NoFunctionalBackend [(''libusb'', ''no hidapi'')]), [Probe ''libusb''])"
    using autoprobe_exhausted_raises_NoFunctionalBackend [OF d f, of stub_backend broken_libusb "[]"]
    by simp
  moreover have "autoprobe [(''dummy'', stub_backend), (''libusb'', broken_libusb), (''hidraw'', broken_hidraw)] [] []
     = (Inl (NoFunctionalBackend [(''libusb'', ''no hidapi''), (''hidraw'', ''permission denied'')]),
        [Probe ''libusb'', Probe ''hidraw'', Construct ''hidraw''])"
    using autoprobe_exhausted_raises_NoFunctionalBackend
      [OF _ broken_libusb_then_broken_hidraw, THEN conjunct1]
    by simp
  ultimately show ?thesis using d f by simp
qed

section \<open>Properties of the enumeration\<close>

subsection \<open>Auxiliary facts\<close>

lemma construct_all_eq:
  "construct_all cls ds s =
     ([length (heap s) ..< length (heap s) + length ds], s\<lparr>heap := heap s @ map (StreamDeck cls) ds\<rparr>)"
proof (induction ds arbitrary: s)
  case Nil
  then show ?case by simp
next
  case (Cons d ds)
  have "[length (heap s) ..< length (heap s) + length (d # ds)]
      = length (heap s) # [Suc (length (heap s)) ..< Suc (length (heap s)) + length ds]"
    by (simp add: upt_rec)
  then show ?case
    by (simp add: Cons.IH new_object_def)
qed

lemma upt_append_add: "[n ..< n + a] @ [n + a ..< n + a + b] = [n ..< n + a + (b::nat)]"
  by (rule upt_add_eq_append [symmetric]) simp

lemma enumerate_loop_step:
  "hid_enumerate t vid pid (world s) = (Inr found, w1) \<Longrightarrow>
   enumerate_loop t ((vid, pid, cls) # rest) acc s =
   enumerate_loop t rest (acc @ [length (heap s) ..< length (heap s) + length found])
     (s\<lparr>world := w1, heap := heap s @ map (StreamDeck cls) found\<rparr>)"
  by (simp add: construct_all_eq)

lemma enumerate_products:
  assumes "hid_enumerate t USB_VID_ELGATO USB_PID_STREAMDECK_ORIGINAL (world s) = (Inr f1, w1)"
    and "hid_enumerate t USB_VID_ELGATO USB_PID_STREAMDECK_ORIGINAL_V2 w1 = (Inr f2, w2)"
    and "hid_enumerate t USB_VID_ELGATO USB_PID_STREAMDECK_MINI w2 = (Inr f3, w3)"
    and "hid_enumerate t USB_VID_ELGATO USB_PID_STREAMDECK_XL w3 = (Inr f4, w4)"
  shows "enumerate_loop t products [] s =
    (Inr [length (heap s) ..< length (heap s) + length f1 + length f2 + length f3 + length f4],
     s\<lparr>world := w4,
        heap := heap s @ map (StreamDeck StreamDeckOriginal) f1 @ map (StreamDeck StreamDeckOriginalV2) f2
            @ map (StreamDeck StreamDeckMini) f3 @ map (StreamDeck StreamDeckXL) f4\<rparr>)"
proof -
  let ?n = "length (heap s)"
  let ?s1 = "s\<lparr>world := w1, heap := heap s @ map (StreamDeck StreamDeckOriginal) f1\<rparr>"
  let ?s2 = "?s1\<lparr>world := w2, heap := heap ?s1 @ map (StreamDeck StreamDeckOriginalV2) f2\<rparr>"
  let ?s3 = "?s2\<lparr>world := w3, heap := heap ?s2 @ map (StreamDeck StreamDeckMini) f3\<rparr>"
  let ?s4 = "?s3\<lparr>world := w4, heap := heap ?s3 @ map (StreamDeck StreamDeckXL) f4\<rparr>"
  have "enumerate_loop t products [] s =
      enumerate_loop t (tl products) ([] @ [?n ..< ?n + length f1]) ?s1"
    unfolding products_def list.sel by (rule enumerate_loop_step) (rule assms(1))
  also have "\<dots> = enumerate_loop t (tl (tl products))
       (([] @ [?n ..< ?n + length f1]) @ [length (heap ?s1) ..< length (heap ?s1) + length f2]) ?s2"
    unfolding products_def list.sel by (rule enumerate_loop_step) (simp add: assms(2))
  also have "\<dots> = enumerate_loop t (tl (tl (tl products)))
       ((([] @ [?n ..< ?n + length f1]) @ [length (heap ?s1) ..< length (heap ?s1) + length f2])
         @ [length (heap ?s2) ..< length (heap ?s2) + length f3]) ?s3"
    unfolding products_def list.sel by (rule enumerate_loop_step) (simp add: assms(3))
  also have "\<dots> = enumerate_loop t (tl (tl (tl (tl products))))
       (((([] @ [?n ..< ?n + length f1]) @ [length (heap ?s1) ..< length (heap ?s1) + length f2])
         @ [length (heap ?s2) ..< length (heap ?s2) + length f3])
         @ [length (heap ?s3) ..< length (heap ?s3) + length f4]) ?s4"
    unfolding products_def list.sel by (rule enumerate_loop_step) (simp add: assms(4))
  finally have e: "enumerate_loop t products [] s =
       (Inr (((([] @ [?n ..< ?n + length f1]) @ [length (heap ?s1) ..< length (heap ?s1) + length f2])
         @ [length (heap ?s2) ..< length (heap ?s2) + length f3])
         @ [length (heap ?s3) ..< length (heap ?s3) + length f4]), ?s4)"
    by (simp add: products_def)
  have r: "(((([] @ [?n ..< ?n + length f1]) @ [length (heap ?s1) ..< length (heap ?s1) + length f2])
         @ [length (heap ?s2) ..< length (heap ?s2) + length f3])
         @ [length (heap ?s3) ..< length (heap ?s3) + length f4])
       = [?n ..< ?n + length f1 + length f2 + length f3 + length f4]"
    using upt_append_add [of ?n "length f1" "length f2"]
      upt_append_add [of ?n "length f1 + length f2" "length f3"]
      upt_append_add [of ?n "length f1 + length f2 + length f3" "length f4"]
    by (simp add: add.assoc)
  show ?thesis unfolding e r by simp
qed

lemma enumerate_manager:
  "deref s self = Some (DeviceManager t) \<Longrightarrow>
   DeviceManager_enumerate self s = enumerate_loop t products [] s"
  by (simp add: DeviceManager_enumerate_def)

lemma map_deref_new:
  "heap s' = before @ objs @ after \<Longrightarrow> n = length before \<Longrightarrow> m = n + length objs \<Longrightarrow>
   map (deref s') [n ..< m] = map Some objs"
  by (rule nth_equalityI) (simp_all add: deref_def nth_append)

lemma deref_old:
  "heap s' = heap s @ new \<Longrightarrow> r < length (heap s) \<Longrightarrow> deref s' r = deref s r"
  by (simp add: deref_def nth_append)

lemma enumerate_loop_append:
  "enumerate_loop t (pre @ post) acc s =
     (case enumerate_loop t pre acc s of
        (Inl e, s1) \<Rightarrow> (Inl e, s1)
      | (Inr acc1, s1) \<Rightarrow> enumerate_loop t post acc1 s1)"
  by (induction t pre acc s rule: enumerate_loop.induct)
     (auto split: prod.splits sum.splits)

lemma enumerate_loop_extends_heap:
  "enumerate_loop t ps acc s = (res, s') \<Longrightarrow> \<exists>new. heap s' = heap s @ new"
proof (induction t ps acc s arbitrary: res s' rule: enumerate_loop.induct)
  case (1 t streamdecks s)
  then show ?case by auto
next
  case (2 t vid pid class_type rest streamdecks s)
  show ?case
  proof (cases "hid_enumerate t vid pid (world s)")
    case (Pair out w1)
    show ?thesis
    proof (cases out)
      case (Inl fault)
      with Pair "2.prems" show ?thesis by auto
    next
      case (Inr found)
      let ?s1 = "s\<lparr>world := w1, heap := heap s @ map (StreamDeck class_type) found\<rparr>"
      from Pair Inr "2.prems" have
        "enumerate_loop t rest (streamdecks @ [length (heap s) ..< length (heap s) + length found]) ?s1
           = (res, s')"
        by (simp add: construct_all_eq)
      with "2.IH" [OF Pair [symmetric] Inr _, of "[length (heap s) ..< length (heap s) + length found]" ?s1 res s']
      obtain new where "heap s' = heap ?s1 @ new"
        by (auto simp: construct_all_eq)
      then show ?thesis by simp
    qed
  qed
qed

lemma bus_query:
  "hid_enumerate (bus_transport bus) vid pid w = (Inr (bus pid), w @ [Enumerate vid pid])"
  by (simp add: bus_transport_def)

lemma one_and_two_values:
  "one_and_two USB_PID_STREAMDECK_ORIGINAL = [''deck'']"
  "one_and_two USB_PID_STREAMDECK_ORIGINAL_V2 = [''deck A'', ''deck B'']"
  "one_and_two USB_PID_STREAMDECK_MINI = []"
  "one_and_two USB_PID_STREAMDECK_XL = []"
  by (simp_all add: one_and_two_def USB_PID_STREAMDECK_ORIGINAL_def
      USB_PID_STREAMDECK_ORIGINAL_V2_def USB_PID_STREAMDECK_MINI_def USB_PID_STREAMDECK_XL_def)

lemma managed_manager: "deref (managed t) 0 = Some (DeviceManager t)"
  by (simp add: managed_def deref_def)

subsection \<open>Results of \<open>enumerate\<close>\<close>

text \<open>
  Claim C5. Let the transport of the manager answer the four scans of one call, in
  the order of the table, with the descriptor lists \<open>f1\<close>, \<open>f2\<close>, \<open>f3\<close>, \<open>f4\<close>. Then
  \<open>enumerate\<close> returns a list of references to the wrappers of \<open>f1\<close>, then those of
  \<open>f2\<close>, of \<open>f3\<close> and of \<open>f4\<close>, each of the class of its signature and each list in
  the order the transport returned it.
\<close>

theorem enumerate_concatenates_in_table_order:
  assumes "deref s self = Some (DeviceManager t)"
    and "hid_enumerate t USB_VID_ELGATO USB_PID_STREAMDECK_ORIGINAL (world s) = (Inr f1, w1)"
    and "hid_enumerate t USB_VID_ELGATO USB_PID_STREAMDECK_ORIGINAL_V2 w1 = (Inr f2, w2)"
    and "hid_enumerate t USB_VID_ELGATO USB_PID_STREAMDECK_MINI w2 = (Inr f3, w3)"
    and "hid_enumerate t USB_VID_ELGATO USB_PID_STREAMDECK_XL w3 = (Inr f4, w4)"
  shows "\<exists>refs s'. DeviceManager_enumerate self s = (Inr refs, s') \<and> world s' = w4 \<and>
           map (deref s') refs =
             map Some (map (StreamDeck StreamDeckOriginal) f1 @
                       map (StreamDeck StreamDeckOriginalV2) f2 @
                       map (StreamDeck StreamDeckMini) f3 @
                       map (StreamDeck StreamDeckXL) f4)"
proof -
  let ?objs = "map (StreamDeck StreamDeckOriginal) f1 @ map (StreamDeck StreamDeckOriginalV2) f2 @
               map (StreamDeck StreamDeckMini) f3 @ map (StreamDeck StreamDeckXL) f4"
  let ?refs = "[length (heap s) ..< length (heap s) + length f1 + length f2 + length f3 + length f4]"
  let ?s' = "s\<lparr>world := w4, heap := heap s @ ?objs\<rparr>"
  have "DeviceManager_enumerate self s = (Inr ?refs, ?s')"
    using assms by (simp add: enumerate_manager enumerate_products)
  moreover have "world ?s' = w4" by simp
  moreover have "map (deref ?s') ?refs = map Some ?objs"
    by (rule map_deref_new [where before = "heap s" and after = "[]"]) simp_all
  ultimately show ?thesis by blast
qed

text \<open>
  One device for the first signature and two for the second: the wrapper of the first,
  then the two of the second in the transport's order.
\<close>

theorem enumerate_concatenates_in_table_order_witness:
  "deref (managed (bus_transport one_and_two)) 0 = Some (DeviceManager (bus_transport one_and_two)) \<and>
   (\<exists>refs s'. DeviceManager_enumerate 0 (managed (bus_transport one_and_two)) = (Inr refs, s') \<and>
      map (deref s') refs =
        [Some (StreamDeck StreamDeckOriginal ''deck''),
         Some (StreamDeck StreamDeckOriginalV2 ''deck A''),
         Some (StreamDeck StreamDeckOriginalV2 ''deck B'')])"
proof -
  from enumerate_concatenates_in_table_order
    [OF managed_manager bus_query bus_query bus_query bus_query]
  obtain refs s' where
    e: "DeviceManager_enumerate 0 (managed (bus_transport one_and_two)) = (Inr refs, s')" and
    d: "map (deref s') refs =
          map Some (map (StreamDeck StreamDeckOriginal) (one_and_two USB_PID_STREAMDECK_ORIGINAL) @
                    map (StreamDeck StreamDeckOriginalV2) (one_and_two USB_PID_STREAMDECK_ORIGINAL_V2) @
                    map (StreamDeck StreamDeckMini) (one_and_two USB_PID_STREAMDECK_MINI) @
                    map (StreamDeck StreamDeckXL) (one_and_two USB_PID_STREAMDECK_XL))"
    by blast
  from d have "map (deref s') refs =
        [Some (StreamDeck StreamDeckOriginal ''deck''),
         Some (StreamDeck StreamDeckOriginalV2 ''deck A''),
         Some (StreamDeck StreamDeckOriginalV2 ''deck B'')]"
    by (simp add: one_and_two_values)
  with e have "\<exists>refs s'. DeviceManager_enumerate 0 (managed (bus_transport one_and_two)) = (Inr refs, s') \<and>
      map (deref s') refs =
        [Some (StreamDeck StreamDeckOriginal ''deck''),
         Some (StreamDeck StreamDeckOriginalV2 ''deck A''),
         Some (StreamDeck StreamDeckOriginalV2 ''deck B'')]"
    by (intro exI conjI)
  with managed_manager show ?thesis by (rule conjI)
qed

text \<open>
  Claim C6. When the transport answers every one of the four scans with the empty
  list, \<open>enumerate\<close> returns the empty list and raises nothing; only the world has
  changed, by the four scans.
\<close>

theorem enumerate_no_devices_returns_empty:
  assumes "deref s self = Some (DeviceManager t)"
    and "hid_enumerate t USB_VID_ELGATO USB_PID_STREAMDECK_ORIGINAL (world s) = (Inr [], w1)"
    and "hid_enumerate t USB_VID_ELGATO USB_PID_STREAMDECK_ORIGINAL_V2 w1 = (Inr [], w2)"
    and "hid_enumerate t USB_VID_ELGATO USB_PID_STREAMDECK_MINI w2 = (Inr [], w3)"
    and "hid_enumerate t USB_VID_ELGATO USB_PID_STREAMDECK_XL w3 = (Inr [], w4)"
  shows "DeviceManager_enumerate self s = (Inr [], s\<lparr>world := w4\<rparr>)"
  using assms by (simp add: enumerate_manager enumerate_products)

theorem enumerate_no_devices_returns_empty_witness:
  "deref (managed (bus_transport no_devices)) 0 = Some (DeviceManager (bus_transport no_devices)) \<and>
   hid_enumerate (bus_transport no_devices) USB_VID_ELGATO USB_PID_STREAMDECK_XL [] =
     (Inr [], [Enumerate USB_VID_ELGATO USB_PID_STREAMDECK_XL]) \<and>
   fst (DeviceManager_enumerate 0 (managed (bus_transport no_devices))) = Inr []"
proof -
  have q: "hid_enumerate (bus_transport no_devices) vid pid w = (Inr [], w @ [Enumerate vid pid])"
    for vid pid w
    by (simp add: bus_transport_def no_devices_def)
  show ?thesis
    using enumerate_no_devices_returns_empty [OF managed_manager q q q q] managed_manager q
    by simp
qed

text \<open>
  Claim C7. Split the table at any signature: when the loop over the signatures before
  it succeeded, with the wrappers \<open>streamdecks\<close> collected so far, and the scan for
  that signature raises \<open>fault\<close>, \<open>enumerate\<close> raises \<open>fault\<close> itself. No list is
  returned, and the world is the one the failing scan left: no later signature is
  scanned.
\<close>

theorem enumerate_propagates_transport_fault:
  assumes "deref s self = Some (DeviceManager t)"
    and "products = pre @ (vid, pid, class_type) # post"
    and "enumerate_loop t pre [] s = (Inr streamdecks, s1)"
    and "hid_enumerate t vid pid (world s1) = (Inl fault, w2)"
  shows "DeviceManager_enumerate self s = (Inl (Raised fault), s1\<lparr>world := w2\<rparr>)"
proof -
  have "enumerate_loop t (pre @ (vid, pid, class_type) # post) [] s
      = enumerate_loop t ((vid, pid, class_type) # post) streamdecks s1"
    by (simp add: enumerate_loop_append assms(3))
  also have "\<dots> = (Inl (Raised fault), s1\<lparr>world := w2\<rparr>)"
    by (simp add: assms(4))
  finally show ?thesis
    by (simp add: enumerate_manager [OF assms(1)] assms(2))
qed

text \<open>
  The scan of the second signature raises after the first found a device: the call
  raises, and the wrapper already created is not returned.
\<close>

theorem enumerate_propagates_transport_fault_witness:
  "deref (managed (faulty_transport one_and_two USB_PID_STREAMDECK_ORIGINAL_V2)) 0
     = Some (DeviceManager (faulty_transport one_and_two USB_PID_STREAMDECK_ORIGINAL_V2)) \<and>
   products = [(USB_VID_ELGATO, USB_PID_STREAMDECK_ORIGINAL, StreamDeckOriginal)] @
     (USB_VID_ELGATO, USB_PID_STREAMDECK_ORIGINAL_V2, StreamDeckOriginalV2) #
     [(USB_VID_ELGATO, USB_PID_STREAMDECK_MINI, StreamDeckMini),
      (USB_VID_ELGATO, USB_PID_STREAMDECK_XL, StreamDeckXL)] \<and>
   enumerate_loop (faulty_transport one_and_two USB_PID_STREAMDECK_ORIGINAL_V2)
       [(USB_VID_ELGATO, USB_PID_STREAMDECK_ORIGINAL, StreamDeckOriginal)] []
       (managed (faulty_transport one_and_two USB_PID_STREAMDECK_ORIGINAL_V2))
     = (Inr [1],
        \<lparr>heap = [DeviceManager (faulty_transport one_and_two USB_PID_STREAMDECK_ORIGINAL_V2),
                 StreamDeck StreamDeckOriginal ''deck''],
         world = [Enumerate USB_VID_ELGATO USB_PID_STREAMDECK_ORIGINAL]\<rparr>) \<and>
   DeviceManager_enumerate 0 (managed (faulty_transport one_and_two USB_PID_STREAMDECK_ORIGINAL_V2))
     = (Inl (Raised ''bus disconnected''),
        \<lparr>heap = [DeviceManager (faulty_transport one_and_two USB_PID_STREAMDECK_ORIGINAL_V2),
                 StreamDeck StreamDeckOriginal ''deck''],
         world = [Enumerate USB_VID_ELGATO USB_PID_STREAMDECK_ORIGINAL,
                  Enumerate USB_VID_ELGATO USB_PID_STREAMDECK_ORIGINAL_V2]\<rparr>)"
proof -
  let ?t = "faulty_transport one_and_two USB_PID_STREAMDECK_ORIGINAL_V2"
  let ?s1 = "\<lparr>heap = [DeviceManager ?t, StreamDeck StreamDeckOriginal ''deck''],
              world = [Enumerate USB_VID_ELGATO USB_PID_STREAMDECK_ORIGINAL]\<rparr>"
  have p: "products = [(USB_VID_ELGATO, USB_PID_STREAMDECK_ORIGINAL, StreamDeckOriginal)] @
     (USB_VID_ELGATO, USB_PID_STREAMDECK_ORIGINAL_V2, StreamDeckOriginalV2) #
     [(USB_VID_ELGATO, USB_PID_STREAMDECK_MINI, StreamDeckMini),
      (USB_VID_ELGATO, USB_PID_STREAMDECK_XL, StreamDeckXL)]"
    by (simp add: products_def)
  have l: "enumerate_loop ?t [(USB_VID_ELGATO, USB_PID_STREAMDECK_ORIGINAL, StreamDeckOriginal)] []
       (managed ?t) = (Inr [1], ?s1)"
    by (simp add: faulty_transport_def managed_def new_object_def one_and_two_def
        USB_PID_STREAMDECK_ORIGINAL_def USB_PID_STREAMDECK_ORIGINAL_V2_def)
  have f: "hid_enumerate ?t USB_VID_ELGATO USB_PID_STREAMDECK_ORIGINAL_V2 (world ?s1)
      = (Inl ''bus disconnected'', [Enumerate USB_VID_ELGATO USB_PID_STREAMDECK_ORIGINAL,
                  Enumerate USB_VID_ELGATO USB_PID_STREAMDECK_ORIGINAL_V2])"
    by (simp add: faulty_transport_def)
  have "DeviceManager_enumerate 0 (managed ?t) = (Inl (Raised ''bus disconnected''),
        ?s1\<lparr>world := [Enumerate USB_VID_ELGATO USB_PID_STREAMDECK_ORIGINAL,
                  Enumerate USB_VID_ELGATO USB_PID_STREAMDECK_ORIGINAL_V2]\<rparr>)"
    using managed_manager p l f by (rule enumerate_propagates_transport_fault)
  then show ?thesis using managed_manager [of ?t] p l by simp
qed

subsection \<open>The manager object\<close>

lemma enumerate_keeps_objects:
  assumes "DeviceManager_enumerate self s = (res, s')" and "r < length (heap s)"
  shows "deref s' r = deref s r"
proof (cases "\<exists>t. deref s self = Some (DeviceManager t)")
  case True
  then obtain t where "deref s self = Some (DeviceManager t)" by blast
  with assms(1) have "enumerate_loop t products [] s = (res, s')"
    by (simp add: enumerate_manager)
  then obtain new where "heap s' = heap s @ new"
    using enumerate_loop_extends_heap by blast
  then show ?thesis using assms(2) by (rule deref_old)
next
  case False
  with assms(1) have "s' = s"
    by (auto simp: DeviceManager_enumerate_def split: option.splits object.splits)
  then show ?thesis by simp
qed

lemma deref_Some_less: "deref s r = Some obj \<Longrightarrow> r < length (heap s)"
  by (simp add: deref_def split: if_splits)

text \<open>
  Claim C8. When \<open>DeviceManager(transport)\<close> returns the manager \<open>self\<close>, the object
  is new, and its attribute \<open>transport\<close> is the instance \<open>t\<close> that \<open>_get_transport\<close>
  returned. From any state in which \<open>self\<close> is that manager, a call of \<open>enumerate\<close>,
  whether it returns or raises, leaves the object \<open>self\<close> as it was, with the same
  \<open>t\<close>, and leaves every other object that existed before the call as it was.
\<close>

theorem manager_transport_is_fixed:
  fixes s0 :: "('w, 'e, 'd) state"
  assumes "DeviceManager_init Dummy LibUSBHIDAPI transport s0 = (Inr self, s1)"
  shows "\<exists>t. get_transport Dummy LibUSBHIDAPI transport (world s0) = (Inr t, world s1) \<and>
           deref s0 self = None \<and>
           deref s1 self = Some (DeviceManager t) \<and>
           (\<forall>s res s'. deref s self = Some (DeviceManager t) \<longrightarrow>
              DeviceManager_enumerate self s = (res, s') \<longrightarrow>
              deref s' self = Some (DeviceManager t) \<and>
              (\<forall>r < length (heap s). deref s' r = deref s r))"
proof -
  obtain out w1 where g: "get_transport Dummy LibUSBHIDAPI transport (world s0) = (out, w1)"
    by (cases "get_transport Dummy LibUSBHIDAPI transport (world s0)")
  with assms obtain t where t: "out = Inr t"
    by (cases out) (auto simp: DeviceManager_init_def)
  from assms g t have self: "self = length (heap s0)"
    and s1: "s1 = s0\<lparr>world := w1, heap := heap s0 @ [DeviceManager t]\<rparr>"
    by (auto simp: DeviceManager_init_def new_object_def)
  have "get_transport Dummy LibUSBHIDAPI transport (world s0) = (Inr t, world s1)"
    using g t s1 by simp
  moreover have "deref s0 self = None" using self by (simp add: deref_def)
  moreover have "deref s1 self = Some (DeviceManager t)"
    using self s1 by (simp add: deref_def)
  moreover have "deref s' self = Some (DeviceManager t) \<and>
      (\<forall>r < length (heap s). deref s' r = deref s r)"
    if m: "deref s self = Some (DeviceManager t)" and e: "DeviceManager_enumerate self s = (res, s')"
    for s :: "('w, 'e, 'd) state" and res s'
  proof -
    from m have "self < length (heap s)" by (rule deref_Some_less)
    with e m show ?thesis by (auto simp: enumerate_keeps_objects)
  qed
  ultimately show ?thesis by blast
qed


text \<open>
  A manager built by auto-probing with a working \<open>libusb\<close> still holds that transport
  after \<open>enumerate\<close>.
\<close>

theorem manager_transport_is_fixed_witness:
  "DeviceManager_init stub_backend working_libusb None \<lparr>heap = [], world = []\<rparr>
     = (Inr 0, \<lparr>heap = [DeviceManager (bus_transport one_and_two)],
                 world = [Probe ''libusb'', Construct ''libusb'']\<rparr>) \<and>
   deref (snd (DeviceManager_enumerate 0
            \<lparr>heap = [DeviceManager (bus_transport one_and_two)],
             world = [Probe ''libusb'', Construct ''libusb'']\<rparr>)) 0
     = Some (DeviceManager (bus_transport one_and_two))"
proof -
  let ?s1 = "\<lparr>heap = [DeviceManager (bus_transport one_and_two)],
              world = [Probe ''libusb'', Construct ''libusb'']\<rparr>"
  have i: "DeviceManager_init stub_backend working_libusb None \<lparr>heap = [], world = []\<rparr>
     = (Inr 0, ?s1)"
    by (simp add: DeviceManager_init_def get_transport_def transports_def probe_and_construct_def
        working_libusb_def backend_def new_object_def)
  from manager_transport_is_fixed [OF i] obtain t where
    a: "deref ?s1 0 = Some (DeviceManager t)" and
    f: "\<forall>s res s'. deref s 0 = Some (DeviceManager t) \<longrightarrow>
          DeviceManager_enumerate 0 s = (res, s') \<longrightarrow>
          deref s' 0 = Some (DeviceManager t) \<and> (\<forall>r < length (heap s). deref s' r = deref s r)"
    by blast
  from a have t: "t = bus_transport one_and_two" by (simp add: deref_def)
  have "DeviceManager_enumerate 0 ?s1
      = (fst (DeviceManager_enumerate 0 ?s1), snd (DeviceManager_enumerate 0 ?s1))"
    by simp
  with f a have "deref (snd (DeviceManager_enumerate 0 ?s1)) 0 = Some (DeviceManager t)"
    by blast
  with i t show ?thesis by simp
qed

text \<open>
  Claim C9. Let the transport answer the four scans of a first call of \<open>enumerate\<close>
  with \<open>f1\<close>, \<open>f2\<close>, \<open>f3\<close>, \<open>f4\<close> and the four scans of the next call with the same
  lists. The second call scans the bus again (its world is the one after eight scans).
  Both calls return; the two results refer, position by position, to equal objects, the
  wrappers of the descriptors; no reference occurs twice in or across the two results,
  and none of them was an object before the first call.
\<close>

theorem enumerate_twice_builds_equal_fresh_wrappers:
  assumes "deref s self = Some (DeviceManager t)"
    and "hid_enumerate t USB_VID_ELGATO USB_PID_STREAMDECK_ORIGINAL (world s) = (Inr f1, w1)"
    and "hid_enumerate t USB_VID_ELGATO USB_PID_STREAMDECK_ORIGINAL_V2 w1 = (Inr f2, w2)"
    and "hid_enumerate t USB_VID_ELGATO USB_PID_STREAMDECK_MINI w2 = (Inr f3, w3)"
    and "hid_enumerate t USB_VID_ELGATO USB_PID_STREAMDECK_XL w3 = (Inr f4, w4)"
    and "hid_enumerate t USB_VID_ELGATO USB_PID_STREAMDECK_ORIGINAL w4 = (Inr f1, w5)"
    and "hid_enumerate t USB_VID_ELGATO USB_PID_STREAMDECK_ORIGINAL_V2 w5 = (Inr f2, w6)"
    and "hid_enumerate t USB_VID_ELGATO USB_PID_STREAMDECK_MINI w6 = (Inr f3, w7)"
    and "hid_enumerate t USB_VID_ELGATO USB_PID_STREAMDECK_XL w7 = (Inr f4, w8)"
  shows "\<exists>refs1 s1 refs2 s2.
           DeviceManager_enumerate self s = (Inr refs1, s1) \<and>
           DeviceManager_enumerate self s1 = (Inr refs2, s2) \<and>
           world s1 = w4 \<and> world s2 = w8 \<and>
           map (deref s2) refs1 = map (deref s2) refs2 \<and>
           map (deref s2) refs2 =
             map Some (map (StreamDeck StreamDeckOriginal) f1 @
                       map (StreamDeck StreamDeckOriginalV2) f2 @
                       map (StreamDeck StreamDeckMini) f3 @
                       map (StreamDeck StreamDeckXL) f4) \<and>
           distinct (refs1 @ refs2) \<and>
           (\<forall>r \<in> set refs1 \<union> set refs2. deref s r = None)"
proof -
  let ?objs = "map (StreamDeck StreamDeckOriginal) f1 @ map (StreamDeck StreamDeckOriginalV2) f2 @
               map (StreamDeck StreamDeckMini) f3 @ map (StreamDeck StreamDeckXL) f4"
  let ?n = "length (heap s)"
  let ?k = "length f1 + length f2 + length f3 + length f4"
  let ?refs1 = "[?n ..< ?n + length f1 + length f2 + length f3 + length f4]"
  let ?s1 = "s\<lparr>world := w4, heap := heap s @ ?objs\<rparr>"
  let ?refs2 = "[length (heap ?s1) ..< length (heap ?s1) + length f1 + length f2 + length f3 + length f4]"
  let ?s2 = "?s1\<lparr>world := w8, heap := heap ?s1 @ ?objs\<rparr>"
  have k: "length ?objs = ?k" by simp
  have e1: "DeviceManager_enumerate self s = (Inr ?refs1, ?s1)"
    using assms(1-5) by (simp add: enumerate_manager enumerate_products)
  have "self < length (heap s)" using assms(1) by (rule deref_Some_less)
  then have m1: "deref ?s1 self = Some (DeviceManager t)"
    using assms(1) by (simp add: deref_def nth_append)
  have w: "world ?s1 = w4" by simp
  have a6: "hid_enumerate t USB_VID_ELGATO USB_PID_STREAMDECK_ORIGINAL (world ?s1) = (Inr f1, w5)"
    using assms(6) by simp
  have e2: "DeviceManager_enumerate self ?s1 = (Inr ?refs2, ?s2)"
    unfolding enumerate_manager [OF m1]
    using enumerate_products [OF a6 assms(7) assms(8) assms(9)] by simp
  have d1: "map (deref ?s2) ?refs1 = map Some ?objs"
    by (rule map_deref_new [where before = "heap s" and after = "?objs"]) simp_all
  have d2: "map (deref ?s2) ?refs2 = map Some ?objs"
    by (rule map_deref_new [where before = "heap s @ ?objs" and after = "[]"]) simp_all
  have dist: "distinct (?refs1 @ ?refs2)" by auto
  have fresh: "\<forall>r \<in> set ?refs1 \<union> set ?refs2. deref s r = None"
    by (auto simp: deref_def)
  have "world ?s2 = w8" by simp
  with e1 e2 w d1 d2 dist fresh show ?thesis
    by (intro exI [of _ ?refs1] exI [of _ ?s1] exI [of _ ?refs2] exI [of _ ?s2]) simp
qed


text \<open>
  Two calls with three attached devices: twice the same three wrappers by content, six
  different objects.
\<close>

theorem enumerate_twice_builds_equal_fresh_wrappers_witness:
  "deref (managed (bus_transport one_and_two)) 0 = Some (DeviceManager (bus_transport one_and_two)) \<and>
   (\<exists>refs1 s1 refs2 s2.
      DeviceManager_enumerate 0 (managed (bus_transport one_and_two)) = (Inr refs1, s1) \<and>
      DeviceManager_enumerate 0 s1 = (Inr refs2, s2) \<and>
      map (deref s2) refs1 =
        [Some (StreamDeck StreamDeckOriginal ''deck''),
         Some (StreamDeck StreamDeckOriginalV2 ''deck A''),
         Some (StreamDeck StreamDeckOriginalV2 ''deck B'')] \<and>
      map (deref s2) refs2 =
        [Some (StreamDeck StreamDeckOriginal ''deck''),
         Some (StreamDeck StreamDeckOriginalV2 ''deck A''),
         Some (StreamDeck StreamDeckOriginalV2 ''deck B'')] \<and>
      distinct (refs1 @ refs2))"
proof -
  from enumerate_twice_builds_equal_fresh_wrappers
    [OF managed_manager bus_query bus_query bus_query bus_query
        bus_query bus_query bus_query bus_query]
  obtain refs1 s1 refs2 s2 where
    e1: "DeviceManager_enumerate 0 (managed (bus_transport one_and_two)) = (Inr refs1, s1)" and
    e2: "DeviceManager_enumerate 0 s1 = (Inr refs2, s2)" and
    eq: "map (deref s2) refs1 = map (deref s2) refs2" and
    d: "map (deref s2) refs2 =
          map Some (map (StreamDeck StreamDeckOriginal) (one_and_two USB_PID_STREAMDECK_ORIGINAL) @
                    map (StreamDeck StreamDeckOriginalV2) (one_and_two USB_PID_STREAMDECK_ORIGINAL_V2) @
                    map (StreamDeck StreamDeckMini) (one_and_two USB_PID_STREAMDECK_MINI) @
                    map (StreamDeck StreamDeckXL) (one_and_two USB_PID_STREAMDECK_XL))" and
    dist: "distinct (refs1 @ refs2)"
    by blast
  from d have d2: "map (deref s2) refs2 =
        [Some (StreamDeck StreamDeckOriginal ''deck''),
         Some (StreamDeck StreamDeckOriginalV2 ''deck A''),
         Some (StreamDeck StreamDeckOriginalV2 ''deck B'')]"
    by (simp add: one_and_two_values)
  with eq have d1: "map (deref s2) refs1 =
        [Some (StreamDeck StreamDeckOriginal ''deck''),
         Some (StreamDeck StreamDeckOriginalV2 ''deck A''),
         Some (StreamDeck StreamDeckOriginalV2 ''deck B'')]"
    by simp
  from e1 e2 d1 d2 dist have "\<exists>refs1 s1 refs2 s2.
      DeviceManager_enumerate 0 (managed (bus_transport one_and_two)) = (Inr refs1, s1) \<and>
      DeviceManager_enumerate 0 s1 = (Inr refs2, s2) \<and>
      map (deref s2) refs1 =
        [Some (StreamDeck StreamDeckOriginal ''deck''),
         Some (StreamDeck StreamDeckOriginalV2 ''deck A''),
         Some (StreamDeck StreamDeckOriginalV2 ''deck B'')] \<and>
      map (deref s2) refs2 =
        [Some (StreamDeck StreamDeckOriginal ''deck''),
         Some (StreamDeck StreamDeckOriginalV2 ''deck A''),
         Some (StreamDeck StreamDeckOriginalV2 ''deck B'')] \<and>
      distinct (refs1 @ refs2)"
    by (intro exI conjI)
  with managed_manager show ?thesis by (rule conjI)
qed

end
